theory Spec2Isabelle
  imports Main
begin

section \<open>Python values, strings and the interpreter's tables\<close>

text \<open>
  A Python \<open>str\<close> is a sequence of Unicode code points, and \<open>len\<close>, indexing, \<open>strip\<close>,
  \<open>upper\<close> and the \<open>re\<close> module all work on code points. A string is therefore a list of
  code points (natural numbers); \<open>str\<close> writes an ASCII literal.
\<close>

type_synonym pystr = "nat list"

definition str :: "string \<Rightarrow> pystr" where
  "str s = map of_char s"

text \<open>
  The values a validator may be handed: an \<open>int\<close> (what \<open>st.number_input\<close> returns for
  integer bounds), a \<open>float\<close> (what it returns for float bounds), a \<open>str\<close> (what
  \<open>st.text_input\<close> returns) and \<open>None\<close>. A float is an infinity, a NaN, or finite: then it
  is \<open>m * 2 ^ e\<close> for two integers, and \<open>Finite m e\<close> stands for it (every finite float has
  this form; only its integer part matters here).
\<close>

datatype pyfloat = Finite int int | Infinity | Minus_Infinity | NaN

datatype pyval = PyInt int | PyFloat pyfloat | PyStr pystr | PyNone

datatype py_error = ValueError | TypeError | AttributeError | OverflowError

text \<open>
  The parts of the interpreter that are tables of the Unicode Character Database, or a
  setting, are parameters of the model, since they are not code of this program:
  \<^item> \<open>to_upper c\<close>: the full uppercase mapping of a non-ASCII code point (one to three
    code points);
  \<^item> \<open>to_lower s i\<close>: the full lowercase mapping of the non-ASCII code point at index \<open>i\<close>
    of \<open>s\<close> (the string is given because the mapping of capital sigma depends on its
    neighbours);
  \<^item> \<open>to_decimal c\<close>: the digit value of a non-ASCII code point of category Nd;
  \<^item> \<open>max_str_digits\<close>: the limit on the number of digits \<open>int\<close> converts from a string
    (\<open>sys.get_int_max_str_digits()\<close>; 0 for no limit, also for the interpreters before
    the limit existed).
  ASCII code points are mapped by the model itself.
\<close>

record py_env =
  to_upper :: "nat \<Rightarrow> nat list"
  to_lower :: "pystr \<Rightarrow> nat \<Rightarrow> nat list"
  to_decimal :: "nat \<Rightarrow> nat option"
  max_str_digits :: nat

definition ascii_upper :: "nat \<Rightarrow> nat" where
  "ascii_upper c = (if 97 \<le> c \<and> c \<le> 122 then c - 32 else c)"

definition ascii_lower :: "nat \<Rightarrow> nat" where
  "ascii_lower c = (if 65 \<le> c \<and> c \<le> 90 then c + 32 else c)"

definition upper_cp :: "py_env \<Rightarrow> nat \<Rightarrow> nat list" where
  "upper_cp env c = (if c < 128 then [ascii_upper c] else to_upper env c)"

definition lower_cp :: "py_env \<Rightarrow> pystr \<Rightarrow> nat \<Rightarrow> nat list" where
  "lower_cp env s i = (if s ! i < 128 then [ascii_lower (s ! i)] else to_lower env s i)"

text \<open>\<open>s.upper()\<close> and \<open>s.lower()\<close>: the mappings of the code points, concatenated.\<close>

definition py_upper :: "py_env \<Rightarrow> pystr \<Rightarrow> pystr" where
  "py_upper env s = concat (map (upper_cp env) s)"

definition py_lower :: "py_env \<Rightarrow> pystr \<Rightarrow> pystr" where
  "py_lower env s = concat (map (lower_cp env s) [0..<length s])"

text \<open>
  \<open>s.strip()\<close> removes leading and trailing whitespace: the code points for which
  \<open>str.isspace\<close> holds.
\<close>

definition is_space :: "nat \<Rightarrow> bool" where
  "is_space c \<longleftrightarrow>
     (9 \<le> c \<and> c \<le> 13) \<or> (28 \<le> c \<and> c \<le> 32) \<or> c = 133 \<or> c = 160 \<or> c = 5760 \<or>
     (8192 \<le> c \<and> c \<le> 8202) \<or> c = 8232 \<or> c = 8233 \<or> c = 8239 \<or> c = 8287 \<or> c = 12288"

definition strip :: "pystr \<Rightarrow> pystr" where
  "strip s = rev (dropWhile is_space (rev (dropWhile is_space s)))"

section \<open>The \<open>re\<close> module, as far as the two patterns use it\<close>

text \<open>
  Both patterns are sequences of anchors and of character classes with a repetition
  count: \<open>[c]\<close> is \<open>Rep c 1 (Some 1)\<close>, \<open>[c]?\<close> is \<open>Rep c 0 (Some 1)\<close>, \<open>[c]+\<close> is
  \<open>Rep c 1 None\<close>, \<open>[c]{2,}\<close> is \<open>Rep c 2 None\<close>. A class is a list of inclusive ranges
  of code points.
\<close>

type_synonym char_class = "(nat \<times> nat) list"

datatype re_item = Bol | Eol | Rep char_class nat "nat option"

definition in_class :: "char_class \<Rightarrow> nat \<Rightarrow> bool" where
  "in_class cls c = list_ex (\<lambda>(lo, hi). lo \<le> c \<and> c \<le> hi) cls"

text \<open>The largest number of repetitions of a class at the head of the rest of the string.\<close>

definition max_reps :: "char_class \<Rightarrow> nat option \<Rightarrow> pystr \<Rightarrow> nat" where
  "max_reps cls hi rest =
     (let run = length (takeWhile (in_class cls) rest)
      in case hi of None \<Rightarrow> run | Some h \<Rightarrow> min h run)"

text \<open>
  \<open>match_here items pos rest\<close>: the backtracking matcher succeeds on \<open>items\<close> at position
  \<open>pos\<close>, where \<open>rest\<close> is the string from \<open>pos\<close> on. Without \<open>re.MULTILINE\<close>, \<open>^\<close> matches
  at position 0 only, and \<open>$\<close> matches at the end of the string and just before a newline
  that is the last character of the string. The matcher tries every admissible repetition
  count of a class; the order in which it tries them does not change whether it succeeds.
  A pattern that is used up has matched (\<open>re.match\<close> does not require the string to end).
\<close>

fun match_here :: "re_item list \<Rightarrow> nat \<Rightarrow> pystr \<Rightarrow> bool" where
  "match_here [] pos rest = True"
| "match_here (Bol # items) pos rest = (pos = 0 \<and> match_here items pos rest)"
| "match_here (Eol # items) pos rest = ((rest = [] \<or> rest = [10]) \<and> match_here items pos rest)"
| "match_here (Rep cls lo hi # items) pos rest =
     list_ex (\<lambda>k. match_here items (pos + k) (drop k rest)) [lo..<Suc (max_reps cls hi rest)]"

text \<open>\<open>re.match(pattern, s) is not None\<close>, for a \<open>str\<close> pattern and any value \<open>s\<close>.\<close>

fun re_match :: "re_item list \<Rightarrow> pyval \<Rightarrow> py_error + bool" where
  "re_match pattern (PyStr s) = Inr (match_here pattern 0 s)"
| "re_match pattern v = Inl TypeError"

section \<open>The validators of \<open>StudentManagementUI\<close>\<close>

text \<open>\<open>[a-zA-Z0-9._%+-]\<close>, \<open>[a-zA-Z0-9.-]\<close>, \<open>[a-zA-Z]\<close>, \<open>[1-9]\<close>, \<open>[0-9]\<close>, \<open>[A-Z]\<close>.\<close>

definition local_class :: char_class where
  "local_class = [(97, 122), (65, 90), (48, 57), (46, 46), (95, 95), (37, 37), (43, 43), (45, 45)]"

definition domain_class :: char_class where
  "domain_class = [(97, 122), (65, 90), (48, 57), (46, 46), (45, 45)]"

definition letter_class :: char_class where
  "letter_class = [(97, 122), (65, 90)]"

definition email_pattern :: "re_item list" where
  "email_pattern =
     [Bol, Rep local_class 1 None, Rep [(64, 64)] 1 (Some 1), Rep domain_class 1 None,
      Rep [(46, 46)] 1 (Some 1), Rep letter_class 2 None, Eol]"

definition grade_pattern :: "re_item list" where
  "grade_pattern =
     [Bol, Rep [(49, 57)] 1 (Some 1), Rep [(48, 57)] 0 (Some 1), Rep [(65, 90)] 1 (Some 1), Eol]"

definition validate_email :: "pyval \<Rightarrow> py_error + bool" where
  "validate_email email = re_match email_pattern email"

text \<open>
  \<open>int(s)\<close> for a string: whitespace around, an optional sign, decimal digits with single
  underscores between digits. A non-ASCII whitespace character counts as a space and a
  non-ASCII decimal digit as its value; the ASCII whitespace of \<open>int\<close> is the C locale's.
  \<open>None\<close> stands for \<open>ValueError\<close>.
\<close>

definition int_space :: "nat \<Rightarrow> bool" where
  "int_space c \<longleftrightarrow> (if c < 128 then (9 \<le> c \<and> c \<le> 13) \<or> c = 32 else is_space c)"

definition digit_value :: "py_env \<Rightarrow> nat \<Rightarrow> nat option" where
  "digit_value env c =
     (if c < 128 then (if 48 \<le> c \<and> c \<le> 57 then Some (c - 48) else None)
      else if is_space c then None else to_decimal env c)"

text \<open>
  The digits of the literal: \<open>prev\<close> tells whether the previous character was a digit (an
  underscore must stand between two digits); the result is the list of digit values.
\<close>

fun int_digits :: "py_env \<Rightarrow> bool \<Rightarrow> pystr \<Rightarrow> nat list option" where
  "int_digits env prev [] = (if prev then Some [] else None)"
| "int_digits env prev (c # cs) =
     (if c = 95 then (if prev then int_digits env False cs else None)
      else case digit_value env c of
             None \<Rightarrow> None
           | Some d \<Rightarrow> (case int_digits env True cs of None \<Rightarrow> None | Some ds \<Rightarrow> Some (d # ds)))"

definition int_of_digits :: "nat list \<Rightarrow> int" where
  "int_of_digits ds = foldl (\<lambda>acc d. 10 * acc + int d) 0 ds"

definition int_of_str :: "py_env \<Rightarrow> pystr \<Rightarrow> int option" where
  "int_of_str env s =
     (let body = rev (dropWhile int_space (rev (dropWhile int_space s)));
          (neg, lit) = (case body of
                          [] \<Rightarrow> (False, [])
                        | c # cs \<Rightarrow> if c = 43 then (False, cs) else if c = 45 then (True, cs)
                                    else (False, body))
      in case int_digits env False lit of
           None \<Rightarrow> None
         | Some ds \<Rightarrow>
             if 0 < max_str_digits env \<and> max_str_digits env < length ds then None
             else Some (if neg then - int_of_digits ds else int_of_digits ds))"

text \<open>The integer part of the finite float \<open>m * 2 ^ e\<close>, rounded towards zero.\<close>

definition float_trunc :: "int \<Rightarrow> int \<Rightarrow> int" where
  "float_trunc m e =
     (if 0 \<le> e then m * 2 ^ nat e
      else if 0 \<le> m then m div 2 ^ nat (- e)
      else - ((- m) div 2 ^ nat (- e)))"

text \<open>
  \<open>int(v)\<close>: an \<open>int\<close> is itself; a finite \<open>float\<close> is truncated, a NaN is a
  \<open>ValueError\<close> and an infinity an \<open>OverflowError\<close>; a \<open>str\<close> is parsed; \<open>None\<close> is a
  \<open>TypeError\<close>.
\<close>

fun py_int :: "py_env \<Rightarrow> pyval \<Rightarrow> py_error + int" where
  "py_int env (PyInt n) = Inr n"
| "py_int env (PyFloat (Finite m e)) = Inr (float_trunc m e)"
| "py_int env (PyFloat NaN) = Inl ValueError"
| "py_int env (PyFloat Infinity) = Inl OverflowError"
| "py_int env (PyFloat Minus_Infinity) = Inl OverflowError"
| "py_int env (PyStr s) = (case int_of_str env s of None \<Rightarrow> Inl ValueError | Some n \<Rightarrow> Inr n)"
| "py_int env PyNone = Inl TypeError"

text \<open>
  \<open>validate_age\<close>: the \<open>try\<close> block returns the range check; \<open>except ValueError\<close> turns
  that one exception into \<open>False\<close>; any other exception leaves the function.
\<close>

definition validate_age :: "py_env \<Rightarrow> pyval \<Rightarrow> py_error + bool" where
  "validate_age env age =
     (case py_int env age of
        Inr age_int \<Rightarrow> Inr (5 \<le> age_int \<and> age_int \<le> 100)
      | Inl ValueError \<Rightarrow> Inr False
      | Inl e \<Rightarrow> Inl e)"

text \<open>\<open>grade.upper()\<close>: a method of \<open>str\<close>; the other values have no such attribute.\<close>

fun upper_method :: "py_env \<Rightarrow> pyval \<Rightarrow> py_error + pyval" where
  "upper_method env (PyStr s) = Inr (PyStr (py_upper env s))"
| "upper_method env v = Inl AttributeError"

definition validate_grade :: "py_env \<Rightarrow> pyval \<Rightarrow> py_error + bool" where
  "validate_grade env grade =
     (case upper_method env grade of
        Inl e \<Rightarrow> Inl e
      | Inr g \<Rightarrow> re_match grade_pattern g)"

section \<open>The record and the manager\<close>

text \<open>
  Modelled from the spec: the class \<open>Student\<close> (\<open>models/student.py\<close>) is not among the
  sources. Its six attributes are the keyword arguments of the constructor call in
  \<open>show_add_student_form\<close>, with the types of the specification's data model.
\<close>

record student =
  student_id :: pystr
  name :: pystr
  age :: int
  grade :: pystr
  email :: pystr
  performance :: pystr

text \<open>
  Modelled from the spec: \<open>StudentManager\<close> (\<open>services/manager.py\<close>) is not among the
  sources either. The manager owns the collection of records, in insertion order, and its
  operations are those of the specification's StudentStore; each takes the collection and
  the operations that change it return the new one.
\<close>

type_synonym manager = "student list"

text \<open>Modelled from the spec: \<open>get_all_students\<close> returns every record, in collection order.\<close>

definition get_all_students :: "manager \<Rightarrow> student list" where
  "get_all_students m = m"

text \<open>
  Modelled from the spec: \<open>add_student\<close> fails (returns false) when the record's
  \<open>student_id\<close> already exists; otherwise it inserts the record and returns success. No other
  field is checked.
\<close>

definition add_student :: "manager \<Rightarrow> student \<Rightarrow> bool \<times> manager" where
  "add_student m r =
     (if student_id r \<in> set (map student_id m) then (False, m) else (True, m @ [r]))"

text \<open>
  Modelled from the spec: one keyword argument of \<open>update_student\<close> written to the
  record. The spec assumes the supplied values already validated; a value that is not of
  its field's type, and a key that is not an editable field, leave the record as it is.
\<close>

fun set_field :: "student \<Rightarrow> pystr \<times> pyval \<Rightarrow> student" where
  "set_field s (k, PyStr v) =
     (if k = str ''name'' then s\<lparr>name := v\<rparr>
      else if k = str ''grade'' then s\<lparr>grade := v\<rparr>
      else if k = str ''email'' then s\<lparr>email := v\<rparr>
      else if k = str ''performance'' then s\<lparr>performance := v\<rparr>
      else s)"
| "set_field s (k, PyInt n) = (if k = str ''age'' then s\<lparr>age := n\<rparr> else s)"
| "set_field s (k, v) = s"

text \<open>
  Modelled from the spec: \<open>update_student\<close> fails when the identifier does not exist;
  otherwise it overwrites the supplied fields in place, leaving \<open>student_id\<close> itself and
  the fields not supplied untouched.
\<close>

definition update_student :: "manager \<Rightarrow> pystr \<Rightarrow> (pystr \<times> pyval) list \<Rightarrow> bool \<times> manager" where
  "update_student m sid supplied =
     (if sid \<in> set (map student_id m)
      then (True, map (\<lambda>s. if student_id s = sid then foldl set_field s supplied else s) m)
      else (False, m))"

text \<open>Modelled from the spec: the substring test of \<open>search_students\<close>.\<close>

fun is_substring :: "pystr \<Rightarrow> pystr \<Rightarrow> bool" where
  "is_substring q [] = (q = [])"
| "is_substring q (c # cs) = (take (length q) (c # cs) = q \<or> is_substring q cs)"

text \<open>
  Modelled from the spec: \<open>search_students\<close> is a case-insensitive substring match against
  the name or the email (the lower-cased forms are compared); an empty query returns the
  full collection; the result keeps the collection's order.
\<close>

definition search_students :: "py_env \<Rightarrow> manager \<Rightarrow> pystr \<Rightarrow> student list" where
  "search_students env m query =
     filter (\<lambda>s. is_substring (py_lower env query) (py_lower env (name s)) \<or>
                 is_substring (py_lower env query) (py_lower env (email s))) m"

text \<open>
  Modelled from the spec: the "apply filters to a given sequence" function of the spec's
  design rationale. It keeps the records that satisfy every criterion that is not \<open>None\<close>:
  the grade by its upper-cased form, the ages by inclusive bounds, the performance exactly.
\<close>

definition apply_filters ::
  "py_env \<Rightarrow> pystr option \<Rightarrow> int option \<Rightarrow> int option \<Rightarrow> pystr option \<Rightarrow> student list \<Rightarrow> student list" where
  "apply_filters env grade_c min_age max_age performance_c students =
     filter (\<lambda>s.
        (case grade_c of None \<Rightarrow> True | Some g \<Rightarrow> py_upper env (grade s) = py_upper env g) \<and>
        (case min_age of None \<Rightarrow> True | Some lo \<Rightarrow> lo \<le> age s) \<and>
        (case max_age of None \<Rightarrow> True | Some hi \<Rightarrow> age s \<le> hi) \<and>
        (case performance_c of None \<Rightarrow> True | Some p \<Rightarrow> performance s = p)) students"

text \<open>
  Modelled from the spec: \<open>filter_students\<close> returns the records of the collection that
  satisfy all the supplied criteria; with none supplied, the full collection.
\<close>

definition filter_students ::
  "py_env \<Rightarrow> manager \<Rightarrow> pystr option \<Rightarrow> int option \<Rightarrow> int option \<Rightarrow> pystr option \<Rightarrow> student list" where
  "filter_students env m grade_c min_age max_age performance_c =
     apply_filters env grade_c min_age max_age performance_c (get_all_students m)"

section \<open>The forms of \<open>StudentManagementUI\<close>\<close>

text \<open>
  The performance select box offers four options and returns the chosen one: the choice
  is a value of an enumeration, the returned string its label.
\<close>

datatype performance_choice = Excellent | Good | Average | Needs_Improvement

fun performance_label :: "performance_choice \<Rightarrow> pystr" where
  "performance_label Excellent = str ''Excellent''"
| "performance_label Good = str ''Good''"
| "performance_label Average = str ''Average''"
| "performance_label Needs_Improvement = str ''Needs Improvement''"

definition performance_options :: "pystr list" where
  "performance_options = [str ''Excellent'', str ''Good'', str ''Average'', str ''Needs Improvement'']"

definition name_required :: pystr where
  "name_required = str ''Name is required''"

definition age_out_of_range :: pystr where
  "age_out_of_range = str ''Age must be between 5 and 100''"

definition email_required :: pystr where
  "email_required = str ''Valid email is required''"

definition grade_format :: pystr where
  "grade_format = str ''Grade must be in format like '' @ [39] @ str ''10A'' @ [39] @ str '', ''
                    @ [39] @ str ''11B'' @ [39]"

text \<open>An exception raised by a call leaves the handler; otherwise the handler goes on.\<close>

definition and_then :: "py_error + 'a \<Rightarrow> ('a \<Rightarrow> py_error + 'b) \<Rightarrow> py_error + 'b" where
  "and_then r f = (case r of Inl e \<Rightarrow> Inl e | Inr x \<Rightarrow> f x)"

text \<open>
  The validation block of a submitted form (lines 63 to 71 of \<open>show_add_student_form\<close>,
  and the same statements on the \<open>new_\<close> variables in lines 134 to 142 of
  \<open>show_update_student_form\<close>): every check runs, each failure appends its message. The
  name and the texts come from \<open>st.text_input\<close>, the age from \<open>st.number_input\<close> with
  integer bounds.
\<close>

definition form_errors :: "py_env \<Rightarrow> pystr \<Rightarrow> int \<Rightarrow> pystr \<Rightarrow> pystr \<Rightarrow> py_error + pystr list" where
  "form_errors env name_in age_in email_in grade_in =
     (let errors = [];
          errors = (if strip name_in = [] then errors @ [name_required] else errors)
      in and_then (validate_age env (PyInt age_in)) (\<lambda>age_ok.
         let errors = (if \<not> age_ok then errors @ [age_out_of_range] else errors)
         in and_then (validate_email (PyStr email_in)) (\<lambda>email_ok.
            let errors = (if \<not> email_ok then errors @ [email_required] else errors)
            in and_then (validate_grade env (PyStr grade_in)) (\<lambda>grade_ok.
               let errors = (if \<not> grade_ok then errors @ [grade_format] else errors)
               in Inr errors))))"

text \<open>
  What a submission of the add form shows: the errors, or the success or the failure of
  \<open>add_student\<close> on the record constructed. \<open>generate_student_id\<close> is the manager's, and
  its strategy is free: it is a parameter.
\<close>

datatype add_result = Add_Errors "pystr list" | Added student | Not_Added student

definition show_add_student_form ::
  "py_env \<Rightarrow> (manager \<Rightarrow> pystr) \<Rightarrow> manager \<Rightarrow> pystr \<Rightarrow> int \<Rightarrow> pystr \<Rightarrow> pystr \<Rightarrow> performance_choice
     \<Rightarrow> py_error + (add_result \<times> manager)" where
  "show_add_student_form env generate_student_id m name_in age_in email_in grade_in choice =
     and_then (form_errors env name_in age_in email_in grade_in) (\<lambda>errors.
       if errors \<noteq> [] then Inr (Add_Errors errors, m)
       else and_then (py_int env (PyInt age_in)) (\<lambda>age_int.
         let new_student = \<lparr>student_id = generate_student_id m, name = strip name_in,
                            age = age_int, grade = py_upper env grade_in,
                            email = strip email_in, performance = performance_label choice\<rparr>
         in case add_student m new_student of
              (True, m') \<Rightarrow> Inr (Added new_student, m')
            | (False, m') \<Rightarrow> Inr (Not_Added new_student, m')))"

text \<open>The dictionary \<open>update_data\<close> of the update form, in the order it is written.\<close>

definition update_data :: "pystr \<Rightarrow> int \<Rightarrow> pystr \<Rightarrow> pystr \<Rightarrow> pystr \<Rightarrow> (pystr \<times> pyval) list" where
  "update_data name_v age_v grade_v email_v performance_v =
     [(str ''name'', PyStr name_v), (str ''age'', PyInt age_v), (str ''grade'', PyStr grade_v),
      (str ''email'', PyStr email_v), (str ''performance'', PyStr performance_v)]"

datatype update_result = Update_Errors "pystr list" | Updated | Not_Updated

text \<open>
  What a submission of the update form shows. The manager's \<open>update_student\<close> is a
  parameter, \<open>manager_update_student\<close>: it is called with the collection, the identifier
  of the selected student and the keyword arguments, and returns its boolean and the
  collection after the call.
\<close>

definition show_update_student_form ::
  "py_env \<Rightarrow> (manager \<Rightarrow> pystr \<Rightarrow> (pystr \<times> pyval) list \<Rightarrow> bool \<times> manager) \<Rightarrow> manager
     \<Rightarrow> student \<Rightarrow> pystr \<Rightarrow> int \<Rightarrow> pystr \<Rightarrow> pystr \<Rightarrow> performance_choice
     \<Rightarrow> py_error + (update_result \<times> manager)" where
  "show_update_student_form env manager_update_student m selected_student new_name new_age
       new_email new_grade new_performance =
     and_then (form_errors env new_name new_age new_email new_grade) (\<lambda>errors.
       if errors \<noteq> [] then Inr (Update_Errors errors, m)
       else and_then (py_int env (PyInt new_age)) (\<lambda>age_int.
         case manager_update_student m (student_id selected_student)
                (update_data (strip new_name) age_int (py_upper env new_grade)
                   (strip new_email) (performance_label new_performance)) of
           (True, m') \<Rightarrow> Inr (Updated, m')
         | (False, m') \<Rightarrow> Inr (Not_Updated, m')))"

text \<open>
  \<open>show_search_filter_section\<close>, from "Apply filters" on: the widgets' values are the
  arguments (the ages come from \<open>st.number_input\<close> with integer bounds).
\<close>

definition show_search_filter_section ::
  "py_env \<Rightarrow> manager \<Rightarrow> pystr \<Rightarrow> pystr \<Rightarrow> pystr \<Rightarrow> int \<Rightarrow> int \<Rightarrow> student list" where
  "show_search_filter_section env m search_query performance_filter grade_filter min_age max_age =
     (let filtered_students = get_all_students m;
          filtered_students = (if search_query \<noteq> [] then search_students env m search_query
                               else filtered_students);
          performance_val = (if performance_filter \<noteq> str ''All'' then Some performance_filter
                             else None);
          grade_val = (if strip grade_filter \<noteq> [] then Some (py_upper env grade_filter)
                       else None);
          filtered_students = filter_students env m grade_val (Some min_age) (Some max_age)
                                performance_val
      in filtered_students)"

section \<open>The specification's side\<close>

text \<open>
  The shapes the specification describes, written without the matcher: a letter, a digit,
  the characters of the local part and of the domain of an email address, and the grade
  "one or two digits, the first not zero, then one uppercase letter". The \<open>$\<close> of Python's
  patterns also matches before a newline that ends the string, so both shapes allow one.
\<close>

definition is_letter :: "nat \<Rightarrow> bool" where
  "is_letter c \<longleftrightarrow> (65 \<le> c \<and> c \<le> 90) \<or> (97 \<le> c \<and> c \<le> 122)"

definition is_digit :: "nat \<Rightarrow> bool" where
  "is_digit c \<longleftrightarrow> 48 \<le> c \<and> c \<le> 57"

definition local_char :: "nat \<Rightarrow> bool" where
  "local_char c \<longleftrightarrow> is_letter c \<or> is_digit c \<or> c \<in> set (str ''._%+-'')"

definition domain_char :: "nat \<Rightarrow> bool" where
  "domain_char c \<longleftrightarrow> is_letter c \<or> is_digit c \<or> c \<in> set (str ''.-'')"

definition without_final_newline :: "pystr \<Rightarrow> pystr" where
  "without_final_newline s = (if s \<noteq> [] \<and> last s = 10 then butlast s else s)"

fun grade_shape :: "pystr \<Rightarrow> bool" where
  "grade_shape [d, l] = (49 \<le> d \<and> d \<le> 57 \<and> 65 \<le> l \<and> l \<le> 90)"
| "grade_shape [d, e, l] = (49 \<le> d \<and> d \<le> 57 \<and> is_digit e \<and> 65 \<le> l \<and> l \<le> 90)"
| "grade_shape s = False"

text \<open>
  The code points a matching grade is made of, and the strings that cannot be part of a
  matching grade: those with a code point outside these, or with two uppercase letters.
\<close>

definition grade_char :: "nat \<Rightarrow> bool" where
  "grade_char c \<longleftrightarrow> is_digit c \<or> (65 \<le> c \<and> c \<le> 90) \<or> c = 10"

definition spoils_grade :: "pystr \<Rightarrow> bool" where
  "spoils_grade w \<longleftrightarrow>
     list_ex (\<lambda>c. \<not> grade_char c) w \<or> 2 \<le> length (filter (\<lambda>c. 65 \<le> c \<and> c \<le> 90) w)"

text \<open>
  Two properties of the case mappings of the Unicode Character Database, as hypotheses
  on the tables. Upper-casing is idempotent: the uppercase mapping of a code point is its
  own upper-cased form. And lower-casing, then upper-casing, a code point other than
  U+212A KELVIN SIGN gives its uppercase mapping again, but for a few code points whose
  two forms both cannot be part of a grade (U+1E9E, whose lowercase upper-cases to SS, is
  one).
\<close>

definition upper_idempotent :: "py_env \<Rightarrow> bool" where
  "upper_idempotent env \<longleftrightarrow> (\<forall>c. py_upper env (upper_cp env c) = upper_cp env c)"

definition lower_upper_agree :: "py_env \<Rightarrow> bool" where
  "lower_upper_agree env \<longleftrightarrow>
     (\<forall>s i. i < length s \<and> 128 \<le> s ! i \<and> s ! i \<noteq> 8490 \<longrightarrow>
        py_upper env (to_lower env s i) = to_upper env (s ! i) \<or>
        spoils_grade (to_upper env (s ! i)) \<and> spoils_grade (py_upper env (to_lower env s i)))"

text \<open>
  The contract of the specification for \<open>update_student\<close>, as far as the identifier goes:
  a call leaves \<open>student_id\<close> itself and any unsupplied field untouched, so a call that is
  not given the key \<open>student_id\<close> leaves every record's identifier as it is.
\<close>

definition leaves_unsupplied_id ::
  "(manager \<Rightarrow> pystr \<Rightarrow> (pystr \<times> pyval) list \<Rightarrow> bool \<times> manager) \<Rightarrow> bool" where
  "leaves_unsupplied_id upd \<longleftrightarrow>
     (\<forall>m sid supplied b m'.
        upd m sid supplied = (b, m') \<and> str ''student_id'' \<notin> set (map fst supplied)
        \<longrightarrow> map student_id m' = map student_id m)"

text \<open>
  An interpreter for the examples. Its tables agree with the Unicode Character Database
  at the two non-ASCII code points of the examples: U+212A KELVIN SIGN is its own
  uppercase, and its lowercase is U+006B, the letter k; U+0131 LATIN SMALL LETTER DOTLESS I
  is its own lowercase, and its uppercase is U+0049, the letter I. No example consults the
  tables at another code point, where they are placeholders.
\<close>

definition example_env :: py_env where
  "example_env = \<lparr>to_upper = (\<lambda>c. if c = 305 then [73] else [c]),
                   to_lower = (\<lambda>s i. if s ! i = 8490 then [107] else [s ! i]),
                   to_decimal = (\<lambda>c. None),
                   max_str_digits = 4300\<rparr>"

text \<open>Two records for the examples.\<close>

definition alice :: student where
  "alice = \<lparr>student_id = str ''S001'', name = str ''Alice Smith'', age = 20, grade = str ''5A'',
             email = str ''alice@example.com'', performance = str ''Good''\<rparr>"

definition bob :: student where
  "bob = \<lparr>student_id = str ''S002'', name = str ''Bob Jones'', age = 30, grade = str ''6B'',
           email = str ''bob@example.com'', performance = str ''Average''\<rparr>"

section \<open>The matcher, declaratively\<close>

lemma le_length_takeWhile:
  "k \<le> length (takeWhile P xs) \<longleftrightarrow> k \<le> length xs \<and> list_all P (take k xs)"
proof (induction xs arbitrary: k)
  case Nil
  then show ?case by simp
next
  case (Cons x xs)
  then show ?case by (cases k) auto
qed

text \<open>
  A repeated class matches exactly when the rest of the string splits into a run of the
  class, of an admissible length, and a remainder the other items match.
\<close>

lemma match_here_Rep:
  "match_here (Rep cls lo hi # items) pos rest \<longleftrightarrow>
     (\<exists>u v. rest = u @ v \<and> list_all (in_class cls) u \<and> lo \<le> length u \<and>
            (case hi of None \<Rightarrow> True | Some h \<Rightarrow> length u \<le> h) \<and>
            match_here items (pos + length u) v)"
  (is "?L \<longleftrightarrow> ?R")
proof
  assume ?L
  then obtain k where k: "lo \<le> k" "k \<le> max_reps cls hi rest"
    and m: "match_here items (pos + k) (drop k rest)"
    unfolding match_here.simps list_ex_iff by auto
  from k(2) have run: "k \<le> length (takeWhile (in_class cls) rest)"
    and bound: "case hi of None \<Rightarrow> True | Some h \<Rightarrow> k \<le> h"
    by (auto simp: max_reps_def Let_def split: option.splits)
  from run have len: "k \<le> length rest" and cls: "list_all (in_class cls) (take k rest)"
    by (simp_all add: le_length_takeWhile)
  have "rest = take k rest @ drop k rest" by simp
  moreover have "length (take k rest) = k" using len by simp
  ultimately show ?R using k(1) bound cls m by metis
next
  assume ?R
  then obtain u v where uv: "rest = u @ v" "list_all (in_class cls) u" "lo \<le> length u"
    "case hi of None \<Rightarrow> True | Some h \<Rightarrow> length u \<le> h" "match_here items (pos + length u) v"
    by blast
  have "length u \<le> length (takeWhile (in_class cls) rest)"
    using uv(1,2) by (simp add: le_length_takeWhile)
  then have "length u \<le> max_reps cls hi rest"
    using uv(4) by (auto simp: max_reps_def Let_def split: option.splits)
  moreover have "drop (length u) rest = v" using uv(1) by simp
  ultimately have "length u \<in> set [lo..<Suc (max_reps cls hi rest)]"
    and "match_here items (pos + length u) (drop (length u) rest)"
    using uv(3,5) by auto
  then show ?L unfolding match_here.simps list_ex_iff by blast
qed

lemma match_here_plus:
  "match_here (Rep cls 1 None # items) pos rest \<longleftrightarrow>
     (\<exists>u v. rest = u @ v \<and> u \<noteq> [] \<and> list_all (in_class cls) u \<and>
            match_here items (pos + length u) v)"
  unfolding match_here_Rep by (auto simp: Suc_le_eq)

lemma match_here_two_or_more:
  "match_here (Rep cls 2 None # items) pos rest \<longleftrightarrow>
     (\<exists>u v. rest = u @ v \<and> 2 \<le> length u \<and> list_all (in_class cls) u \<and>
            match_here items (pos + length u) v)"
  unfolding match_here_Rep by auto

lemma match_here_one:
  "match_here (Rep cls 1 (Some 1) # items) pos rest \<longleftrightarrow>
     (\<exists>c v. rest = c # v \<and> in_class cls c \<and> match_here items (Suc pos) v)"
  (is "?L \<longleftrightarrow> ?R")
proof
  assume ?L
  then obtain u v where uv: "rest = u @ v" "list_all (in_class cls) u" "1 \<le> length u"
    "length u \<le> 1" "match_here items (pos + length u) v"
    unfolding match_here_Rep option.case by blast
  from uv(3,4) obtain c where "u = [c]" by (cases u) auto
  with uv show ?R by simp
next
  assume ?R
  then obtain c v where "rest = [c] @ v" "in_class cls c" "match_here items (Suc pos) v"
    by auto
  then show ?L unfolding match_here_Rep by (intro exI[of _ "[c]"] exI[of _ v]) simp
qed

lemma match_here_optional:
  "match_here (Rep cls 0 (Some 1) # items) pos rest \<longleftrightarrow>
     match_here items pos rest \<or>
     (\<exists>c v. rest = c # v \<and> in_class cls c \<and> match_here items (Suc pos) v)"
  (is "?L \<longleftrightarrow> ?R")
proof
  assume ?L
  then obtain u v where uv: "rest = u @ v" "list_all (in_class cls) u"
    "length u \<le> 1" "match_here items (pos + length u) v"
    unfolding match_here_Rep option.case by blast
  show ?R
  proof (cases u)
    case Nil
    with uv show ?thesis by simp
  next
    case (Cons c cs)
    with uv(3) have "u = [c]" by simp
    with uv show ?thesis by simp
  qed
next
  assume ?R
  then show ?L
  proof
    assume "match_here items pos rest"
    then show ?L unfolding match_here_Rep by (intro exI[of _ "[]"] exI[of _ rest]) simp
  next
    assume "\<exists>c v. rest = c # v \<and> in_class cls c \<and> match_here items (Suc pos) v"
    then obtain c v where "rest = [c] @ v" "in_class cls c" "match_here items (Suc pos) v"
      by auto
    then show ?L unfolding match_here_Rep by (intro exI[of _ "[c]"] exI[of _ v]) simp
  qed
qed

lemma in_class_local: "in_class local_class = local_char"
  by (rule ext)
    (auto simp: in_class_def local_class_def local_char_def is_letter_def is_digit_def str_def)

lemma in_class_domain: "in_class domain_class = domain_char"
  by (rule ext)
    (auto simp: in_class_def domain_class_def domain_char_def is_letter_def is_digit_def str_def)

lemma in_class_letter: "in_class letter_class = is_letter"
  by (rule ext) (auto simp: in_class_def letter_class_def is_letter_def)

lemma in_class_single: "in_class [(c, c)] x \<longleftrightarrow> x = c"
  by (auto simp: in_class_def)

lemma in_class_range: "in_class [(lo, hi)] x \<longleftrightarrow> lo \<le> x \<and> x \<le> hi"
  by (auto simp: in_class_def)

lemma match_email:
  "match_here email_pattern 0 v \<longleftrightarrow>
     (\<exists>l d t nl. v = l @ str ''@'' @ d @ str ''.'' @ t @ nl \<and>
        l \<noteq> [] \<and> list_all local_char l \<and> d \<noteq> [] \<and> list_all domain_char d \<and>
        2 \<le> length t \<and> list_all is_letter t \<and> (nl = [] \<or> nl = [10]))"
  unfolding email_pattern_def match_here.simps(2) match_here_plus match_here_one
    match_here_two_or_more match_here.simps(3) match_here.simps(1)
    in_class_local in_class_domain in_class_letter in_class_single
  by (simp add: str_def) blast

lemma match_grade_cases:
  "match_here grade_pattern 0 u \<longleftrightarrow>
     (\<exists>d l. 49 \<le> d \<and> d \<le> 57 \<and> 65 \<le> l \<and> l \<le> 90 \<and> (u = [d, l] \<or> u = [d, l, 10])) \<or>
     (\<exists>d e l. 49 \<le> d \<and> d \<le> 57 \<and> is_digit e \<and> 65 \<le> l \<and> l \<le> 90 \<and>
        (u = [d, e, l] \<or> u = [d, e, l, 10]))"
  unfolding grade_pattern_def match_here.simps(2) match_here_one match_here_optional
    match_here.simps(3) match_here.simps(1) in_class_range is_digit_def
  by auto

lemma without_final_newline_cases:
  "u = without_final_newline u \<or> u = without_final_newline u @ [10]"
proof (cases "u \<noteq> [] \<and> last u = 10")
  case True
  then have "butlast u @ [10] = u"
    using append_butlast_last_id[of u] by simp
  with True show ?thesis by (simp add: without_final_newline_def)
next
  case False
  then show ?thesis by (auto simp: without_final_newline_def)
qed

lemma grade_shape_cases:
  "grade_shape w \<longleftrightarrow>
     (\<exists>d l. 49 \<le> d \<and> d \<le> 57 \<and> 65 \<le> l \<and> l \<le> 90 \<and> w = [d, l]) \<or>
     (\<exists>d e l. 49 \<le> d \<and> d \<le> 57 \<and> is_digit e \<and> 65 \<le> l \<and> l \<le> 90 \<and> w = [d, e, l])"
  by (cases w rule: grade_shape.cases) auto

lemma match_grade: "match_here grade_pattern 0 u \<longleftrightarrow> grade_shape (without_final_newline u)"
proof
  assume "match_here grade_pattern 0 u"
  then show "grade_shape (without_final_newline u)"
    unfolding match_grade_cases by (auto simp: without_final_newline_def)
next
  assume g: "grade_shape (without_final_newline u)"
  from without_final_newline_cases[of u] g show "match_here grade_pattern 0 u"
    unfolding match_grade_cases grade_shape_cases by (elim disjE exE conjE) simp_all
qed

section \<open>ASCII strings\<close>

lemma py_upper_ascii:
  "list_all (\<lambda>c. c < 128) g \<Longrightarrow> py_upper env g = map ascii_upper g"
  by (induction g) (simp_all add: py_upper_def upper_cp_def)

lemma py_lower_ascii:
  assumes "list_all (\<lambda>c. c < 128) g"
  shows "py_lower env g = map ascii_lower g"
proof -
  have eq: "map (lower_cp env g) [0..<length g] = map (\<lambda>i. [ascii_lower (g ! i)]) [0..<length g]"
    using assms by (auto simp: lower_cp_def list_all_length)
  have "py_lower env g = map (\<lambda>i. ascii_lower (g ! i)) [0..<length g]"
    by (simp only: py_lower_def eq concat_map_singleton)
  also have "\<dots> = map ascii_lower (map ((!) g) [0..<length g])"
    by simp
  also have "\<dots> = map ascii_lower g"
    by (simp only: map_nth)
  finally show ?thesis .
qed

lemma ascii_upper_upper: "ascii_upper (ascii_upper c) = ascii_upper c"
  unfolding ascii_upper_def by auto

lemma ascii_upper_lower: "ascii_upper (ascii_lower c) = ascii_upper c"
  unfolding ascii_upper_def ascii_lower_def by auto

lemma ascii_upper_less: "c < 128 \<Longrightarrow> ascii_upper c < 128"
  unfolding ascii_upper_def by auto

lemma ascii_lower_less: "c < 128 \<Longrightarrow> ascii_lower c < 128"
  unfolding ascii_lower_def by auto

section \<open>The forms\<close>

lemma messages_distinct:
  "distinct [name_required, age_out_of_range, email_required, grade_format]"
  by (simp add: name_required_def age_out_of_range_def email_required_def grade_format_def str_def)

lemma validate_age_int: "validate_age env (PyInt a) = Inr (5 \<le> a \<and> a \<le> 100)"
  by (simp add: validate_age_def)

lemma validate_email_str: "validate_email (PyStr e) = Inr (match_here email_pattern 0 e)"
  by (simp add: validate_email_def)

lemma validate_grade_str:
  "validate_grade env (PyStr g) = Inr (match_here grade_pattern 0 (py_upper env g))"
  by (simp add: validate_grade_def)

text \<open>The validation block, in closed form: one optional message per field, in order.\<close>

lemma form_errors_eq:
  "form_errors env n a e g =
     Inr ((if strip n = [] then [name_required] else []) @
          (if \<not> (5 \<le> a \<and> a \<le> 100) then [age_out_of_range] else []) @
          (if \<not> match_here email_pattern 0 e then [email_required] else []) @
          (if \<not> match_here grade_pattern 0 (py_upper env g) then [grade_format] else []))"
  by (simp add: form_errors_def and_then_def validate_age_int validate_email_str
      validate_grade_str)

lemma strip_core:
  assumes "x \<noteq> []" "\<not> is_space (hd x)" "\<not> is_space (last x)" "list_all is_space w"
  shows "strip (x @ w) = x"
proof -
  from assms(1,2) have front: "dropWhile is_space (x @ w) = x @ w"
    by (cases x) simp_all
  have "dropWhile is_space (rev w @ rev x) = dropWhile is_space (rev x)"
    using assms(4) by (intro dropWhile_append2) (simp add: list_all_iff)
  also have "\<dots> = rev x"
    using assms(1,3) by (cases "rev x") (simp_all add: last_rev[symmetric] del: last_rev)
  finally show ?thesis
    by (simp add: strip_def front)
qed

lemma local_char_not_space: "local_char c \<Longrightarrow> \<not> is_space c"
  by (auto simp: local_char_def is_letter_def is_digit_def is_space_def str_def)

lemma is_letter_not_space: "is_letter c \<Longrightarrow> \<not> is_space c"
  by (auto simp: is_letter_def is_space_def)

text \<open>An email that matches still matches once it is stripped: only the newline goes.\<close>

lemma match_email_strip:
  assumes "match_here email_pattern 0 e"
  shows "match_here email_pattern 0 (strip e)"
proof -
  from assms obtain l d t nl where e: "e = l @ str ''@'' @ d @ str ''.'' @ t @ nl"
    and l: "l \<noteq> []" "list_all local_char l" and d: "d \<noteq> []" "list_all domain_char d"
    and t: "2 \<le> length t" "list_all is_letter t" and nl: "nl = [] \<or> nl = [10]"
    unfolding match_email by blast
  define core where "core = l @ str ''@'' @ d @ str ''.'' @ t"
  from t(1) have tne: "t \<noteq> []" by auto
  have "hd core = hd l" using l(1) by (simp add: core_def)
  moreover have "local_char (hd l)" using l by (cases l) simp_all
  ultimately have h: "\<not> is_space (hd core)" by (simp add: local_char_not_space)
  have "last core = last t" using tne by (simp add: core_def)
  moreover have "is_letter (last t)" using t(2) tne by (simp add: list_all_iff)
  ultimately have la: "\<not> is_space (last core)" by (simp add: is_letter_not_space)
  have "list_all is_space nl" using nl by (auto simp: is_space_def)
  with h la have "strip (core @ nl) = core"
    by (intro strip_core) (simp_all add: core_def l(1))
  then have "strip e = l @ str ''@'' @ d @ str ''.'' @ t @ []"
    by (simp add: e core_def)
  with l d t show ?thesis
    unfolding match_email by blast
qed

text \<open>A grade that matches is made of ASCII digits, an uppercase letter and the newline.\<close>

lemma match_grade_upper:
  assumes "match_here grade_pattern 0 u"
  shows "py_upper env u = u"
proof -
  from assms have "list_all (\<lambda>c. c < 128 \<and> ascii_upper c = c) u"
    unfolding match_grade_cases by (auto simp: is_digit_def ascii_upper_def)
  then have "list_all (\<lambda>c. c < 128) u" and "map ascii_upper u = u"
    by (simp_all add: list_all_iff map_idI)
  then show ?thesis
    by (simp add: py_upper_ascii)
qed

lemma performance_label_option: "performance_label c \<in> set performance_options"
  by (cases c) (simp_all add: performance_options_def)

lemma set_field_student_id: "student_id (set_field s kv) = student_id s"
  by (cases "(s, kv)" rule: set_field.cases) simp_all

lemma foldl_set_field_student_id: "student_id (foldl set_field s kvs) = student_id s"
  by (induction kvs arbitrary: s) (simp_all add: set_field_student_id)

lemma update_student_ids:
  "update_student m sid supplied = (b, m') \<Longrightarrow> map student_id m' = map student_id m"
  by (auto simp: update_student_def foldl_set_field_student_id split: if_splits)

lemma foldl_set_field_update_data:
  "foldl set_field s (update_data nv av gv ev pv) =
     s\<lparr>name := nv, age := av, grade := gv, email := ev, performance := pv\<rparr>"
  by (simp add: update_data_def str_def)

lemma search_students_ascii:
  assumes "list_all (\<lambda>c. c < 128) q" "list_all (\<lambda>s. list_all (\<lambda>c. c < 128) (name s)) m"
    "list_all (\<lambda>s. list_all (\<lambda>c. c < 128) (email s)) m"
  shows "search_students env m q =
     filter (\<lambda>s. is_substring (map ascii_lower q) (map ascii_lower (name s)) \<or>
                 is_substring (map ascii_lower q) (map ascii_lower (email s))) m"
  unfolding search_students_def using assms
  by (intro filter_cong refl) (simp add: py_lower_ascii list_all_iff)

text \<open>The stripped form of a matching email: the address without the final newline.\<close>

lemma strip_email_shape:
  assumes "match_here email_pattern 0 e"
  shows "\<exists>l d t. strip e = l @ str ''@'' @ d @ str ''.'' @ t \<and>
           l \<noteq> [] \<and> list_all local_char l \<and> d \<noteq> [] \<and> list_all domain_char d \<and>
           2 \<le> length t \<and> list_all is_letter t"
proof -
  from assms obtain l d t nl where e: "e = l @ str ''@'' @ d @ str ''.'' @ t @ nl"
    and l: "l \<noteq> []" "list_all local_char l" and d: "d \<noteq> []" "list_all domain_char d"
    and t: "2 \<le> length t" "list_all is_letter t" and nl: "nl = [] \<or> nl = [10]"
    unfolding match_email by blast
  define core where "core = l @ str ''@'' @ d @ str ''.'' @ t"
  from t(1) have tne: "t \<noteq> []" by auto
  have "hd core = hd l" using l(1) by (simp add: core_def)
  moreover have "local_char (hd l)" using l by (cases l) simp_all
  ultimately have h: "\<not> is_space (hd core)" by (simp add: local_char_not_space)
  have "last core = last t" using tne by (simp add: core_def)
  moreover have "is_letter (last t)" using t(2) tne by (simp add: list_all_iff)
  ultimately have la: "\<not> is_space (last core)" by (simp add: is_letter_not_space)
  have "list_all is_space nl" using nl by (auto simp: is_space_def)
  with h la have "strip (core @ nl) = core"
    by (intro strip_core) (simp_all add: core_def l(1))
  then have "strip e = l @ str ''@'' @ d @ str ''.'' @ t"
    by (simp add: e core_def)
  with l d t show ?thesis
    by blast
qed

section \<open>Case mappings and grades\<close>

lemma py_upper_append: "py_upper env (u @ v) = py_upper env u @ py_upper env v"
  by (simp add: py_upper_def)

lemma py_upper_concat: "py_upper env (concat xs) = concat (map (py_upper env) xs)"
  by (induction xs) (simp_all add: py_upper_append, simp add: py_upper_def)

lemma py_upper_idem:
  assumes "upper_idempotent env"
  shows "py_upper env (py_upper env g) = py_upper env g"
proof (induction g)
  case Nil
  then show ?case by (simp add: py_upper_def)
next
  case (Cons c g)
  have "py_upper env (c # g) = upper_cp env c @ py_upper env g"
    by (simp add: py_upper_def)
  moreover have "py_upper env (upper_cp env c) = upper_cp env c"
    using assms by (simp add: upper_idempotent_def)
  ultimately show ?case
    using Cons by (simp add: py_upper_append)
qed

lemma match_grade_chars:
  assumes "match_here grade_pattern 0 w"
  shows "list_all grade_char w" and "length (filter (\<lambda>c. 65 \<le> c \<and> c \<le> 90) w) \<le> 1"
  using assms unfolding match_grade_cases
  by (auto simp: grade_char_def is_digit_def)

lemma spoils_grade_no_match:
  assumes "spoils_grade b"
  shows "\<not> match_here grade_pattern 0 (u @ b @ v)"
proof
  assume m: "match_here grade_pattern 0 (u @ b @ v)"
  from match_grade_chars[OF m] have "list_all grade_char b"
    and "length (filter (\<lambda>c. 65 \<le> c \<and> c \<le> 90) b) \<le> 1"
    by simp_all
  with assms show False
    by (auto simp: spoils_grade_def list_ex_iff list_all_iff)
qed

lemma concat_nth_split:
  assumes "i < length xs"
  shows "\<exists>u v. concat xs = u @ xs ! i @ v"
proof -
  from assms have "xs = take i xs @ xs ! i # drop (Suc i) xs"
    by (rule id_take_nth_drop)
  then have "concat xs = concat (take i xs) @ xs ! i @ concat (drop (Suc i) xs)"
    by (metis concat.simps(2) concat_append)
  then show ?thesis by blast
qed

text \<open>Lower-casing and then upper-casing, position by position.\<close>

lemma lower_then_upper_position:
  assumes "lower_upper_agree env" "8490 \<notin> set g" "i < length g"
  shows "py_upper env (lower_cp env g i) = upper_cp env (g ! i) \<or>
         spoils_grade (upper_cp env (g ! i)) \<and> spoils_grade (py_upper env (lower_cp env g i))"
proof (cases "g ! i < 128")
  case True
  then have "ascii_lower (g ! i) < 128"
    by (rule ascii_lower_less)
  with True show ?thesis
    by (simp add: lower_cp_def upper_cp_def py_upper_def ascii_upper_lower)
next
  case False
  moreover from assms(2,3) have "g ! i \<noteq> 8490"
    by (metis nth_mem)
  ultimately show ?thesis
    using assms(1,3) by (simp add: lower_upper_agree_def lower_cp_def upper_cp_def)
qed

lemma match_upper_lower:
  assumes "lower_upper_agree env" "8490 \<notin> set g"
  shows "match_here grade_pattern 0 (py_upper env (py_lower env g))
           \<longleftrightarrow> match_here grade_pattern 0 (py_upper env g)"
proof -
  define A where "A = map (\<lambda>i. py_upper env (lower_cp env g i)) [0..<length g]"
  define B where "B = map (\<lambda>i. upper_cp env (g ! i)) [0..<length g]"
  have a: "py_upper env (py_lower env g) = concat A"
    by (simp add: py_lower_def py_upper_concat A_def comp_def)
  have "map (upper_cp env) g = map (upper_cp env) (map ((!) g) [0..<length g])"
    by (simp only: map_nth)
  then have b: "py_upper env g = concat B"
    by (simp add: py_upper_def B_def comp_def)
  have len: "length A = length g" "length B = length g"
    by (simp_all add: A_def B_def)
  have pos: "A ! i = B ! i \<or> spoils_grade (B ! i) \<and> spoils_grade (A ! i)" if "i < length g" for i
    using lower_then_upper_position[OF assms that] that by (simp add: A_def B_def)
  show ?thesis
  proof (cases "\<forall>i<length g. A ! i = B ! i")
    case True
    with len have "A = B"
      by (simp add: nth_equalityI)
    then show ?thesis by (simp add: a b)
  next
    case False
    then obtain i where i: "i < length g" "spoils_grade (B ! i)" "spoils_grade (A ! i)"
      using pos by blast
    from concat_nth_split[of i A] i(1) len obtain u v where "concat A = u @ A ! i @ v"
      by auto
    with i(3) have na: "\<not> match_here grade_pattern 0 (concat A)"
      by (simp add: spoils_grade_no_match)
    from concat_nth_split[of i B] i(1) len obtain u' v' where "concat B = u' @ B ! i @ v'"
      by auto
    with i(2) have "\<not> match_here grade_pattern 0 (concat B)"
      by (simp add: spoils_grade_no_match)
    with na show ?thesis by (simp add: a b)
  qed
qed

lemma example_env_upper_idempotent: "upper_idempotent example_env"
  unfolding upper_idempotent_def
proof
  fix c
  show "py_upper example_env (upper_cp example_env c) = upper_cp example_env c"
  proof (cases "c < 128")
    case True
    then show ?thesis
      by (simp add: py_upper_def upper_cp_def ascii_upper_upper ascii_upper_less)
  next
    case False
    then show ?thesis
      by (simp add: py_upper_def upper_cp_def example_env_def ascii_upper_def)
  qed
qed

lemma example_env_lower_upper_agree: "lower_upper_agree example_env"
  by (simp add: lower_upper_agree_def py_upper_def upper_cp_def example_env_def)

section \<open>The validators\<close>

text \<open>
  C3: for every string \<open>v\<close>, \<open>validate_email(v)\<close> returns true iff \<open>v\<close> matches the pattern
  \<open>^[A-Za-z0-9._%+-]+@[A-Za-z0-9.-]+\.[A-Za-z]{2,}$\<close>, and nothing else is checked: the
  result is true exactly when \<open>v\<close> is a non-empty local part, one \<open>@\<close>, a non-empty domain,
  a dot and a final segment of at least two letters, up to the newline that Python's \<open>$\<close>
  lets end the string.
\<close>

theorem validate_email_iff_pattern:
  "validate_email (PyStr v) =
     Inr (\<exists>l d t nl. v = l @ str ''@'' @ d @ str ''.'' @ t @ nl \<and>
            l \<noteq> [] \<and> list_all local_char l \<and> d \<noteq> [] \<and> list_all domain_char d \<and>
            2 \<le> length t \<and> list_all is_letter t \<and> (nl = [] \<or> nl = [10]))"
  by (simp add: validate_email_def match_email)

theorem validate_email_iff_pattern_witness:
  "validate_email (PyStr (str ''student@example.com'')) = Inr True \<and>
   (\<exists>l d t nl. str ''student@example.com'' = l @ str ''@'' @ d @ str ''.'' @ t @ nl \<and>
      l \<noteq> [] \<and> list_all local_char l \<and> d \<noteq> [] \<and> list_all domain_char d \<and>
      2 \<le> length t \<and> list_all is_letter t \<and> (nl = [] \<or> nl = [10]))"
proof -
  have e: "validate_email (PyStr (str ''student@example.com'')) = Inr True"
    by (simp add: validate_email_def email_pattern_def max_reps_def in_class_def local_class_def
        domain_class_def letter_class_def str_def)
  with validate_email_iff_pattern [of "str ''student@example.com''"] show ?thesis
    by simp
qed

text \<open>
  C4: for every string \<open>g\<close>, \<open>validate_grade(g)\<close> returns true iff the upper-cased form of
  \<open>g\<close> matches \<open>^[1-9][0-9]?[A-Z]$\<close>: one or two digits, the first not zero, then exactly one
  uppercase letter (and the newline that \<open>$\<close> lets end the string);
  \<open>validate_grade("10a")\<close> is true, and \<open>validate_grade\<close> is false on \<open>"0A"\<close>, \<open>"100A"\<close> and
  \<open>"A10"\<close>.
\<close>

theorem validate_grade_iff_pattern:
  "validate_grade env (PyStr g) = Inr (grade_shape (without_final_newline (py_upper env g))) \<and>
   validate_grade env (PyStr (str ''10a'')) = Inr True \<and>
   validate_grade env (PyStr (str ''0A'')) = Inr False \<and>
   validate_grade env (PyStr (str ''100A'')) = Inr False \<and>
   validate_grade env (PyStr (str ''A10'')) = Inr False"
proof -
  have general: "validate_grade env (PyStr s) = Inr (grade_shape (without_final_newline (py_upper env s)))"
    for s
    by (simp add: validate_grade_def match_grade)
  have "py_upper env (str ''10a'') = str ''10A''" "py_upper env (str ''0A'') = str ''0A''"
    "py_upper env (str ''100A'') = str ''100A''" "py_upper env (str ''A10'') = str ''A10''"
    by (simp_all add: py_upper_def upper_cp_def ascii_upper_def str_def)
  then show ?thesis
    unfolding general by (simp add: str_def without_final_newline_def is_digit_def)
qed

theorem validate_grade_iff_pattern_witness:
  "validate_grade example_env (PyStr (str ''7b'')) = Inr True \<and>
   grade_shape (without_final_newline (py_upper example_env (str ''7b'')))"
proof -
  have e: "validate_grade example_env (PyStr (str ''7b'')) = Inr True"
    by (simp add: validate_grade_def py_upper_def upper_cp_def ascii_upper_def str_def
        grade_pattern_def max_reps_def in_class_def)
  with validate_grade_iff_pattern [of example_env "str ''7b''"] show ?thesis
    by simp
qed

text \<open>
  C10: the anchoring is not strict: \<open>validate_email\<close> returns true for a valid email
  followed by one newline, and \<open>validate_grade\<close> for a valid grade followed by one
  newline.
\<close>

theorem trailing_newline_accepted:
  "validate_email (PyStr (str ''student@example.com'')) = Inr True \<and>
   validate_email (PyStr (str ''student@example.com'' @ [10])) = Inr True \<and>
   validate_grade env (PyStr (str ''10A'')) = Inr True \<and>
   validate_grade env (PyStr (str ''10A'' @ [10])) = Inr True"
proof -
  have "validate_email (PyStr (str ''student@example.com'')) = Inr True"
    "validate_email (PyStr (str ''student@example.com'' @ [10])) = Inr True"
    by (simp_all add: validate_email_def email_pattern_def max_reps_def in_class_def local_class_def
        domain_class_def letter_class_def str_def)
  moreover have "validate_grade env (PyStr (str ''10A'')) = Inr True"
    "validate_grade env (PyStr (str ''10A'' @ [10])) = Inr True"
    by (simp_all add: validate_grade_def py_upper_def upper_cp_def ascii_upper_def str_def
        grade_pattern_def max_reps_def in_class_def)
  ultimately show ?thesis by simp
qed

text \<open>
  C2, as amended: for every input value \<open>a\<close> whose integer coercion succeeds or raises
  \<open>ValueError\<close> (every \<open>int\<close>, every \<open>str\<close>, every finite float and the NaN),
  \<open>validate_age(a)\<close> returns true iff \<open>a\<close> is integer-coercible and \<open>5 <= int(a) <= 100\<close>,
  and returns false whenever the coercion fails. When the coercion raises another
  exception (\<open>OverflowError\<close> for an infinite float, \<open>TypeError\<close> for \<open>None\<close>),
  \<open>validate_age\<close> raises it.
\<close>

theorem validate_age_coercion:
  "((\<forall>err. py_int env a = Inl err \<longrightarrow> err = ValueError) \<longrightarrow>
      validate_age env a = Inr (\<exists>n. py_int env a = Inr n \<and> 5 \<le> n \<and> n \<le> 100)) \<and>
   (\<forall>err. py_int env a = Inl err \<and> err \<noteq> ValueError \<longrightarrow> validate_age env a = Inl err) \<and>
   ((\<forall>err. py_int env a = Inl err \<longrightarrow> err = ValueError) \<longleftrightarrow>
      a \<notin> {PyNone, PyFloat Infinity, PyFloat Minus_Infinity})"
proof (cases "py_int env a")
  case (Inr n)
  then have "a \<notin> {PyNone, PyFloat Infinity, PyFloat Minus_Infinity}"
    by auto
  with Inr show ?thesis
    by (simp add: validate_age_def)
next
  case (Inl err)
  have kinds: "err = ValueError \<longleftrightarrow> a \<notin> {PyNone, PyFloat Infinity, PyFloat Minus_Infinity}"
  proof (cases a)
    case (PyFloat f)
    with Inl show ?thesis by (cases f) auto
  next
    case (PyStr s)
    with Inl show ?thesis by (cases "int_of_str env s") auto
  qed (use Inl in auto)
  from Inl kinds show ?thesis
    by (cases err) (simp_all add: validate_age_def)
qed

theorem validate_age_coercion_witness:
  "py_int example_env (PyFloat NaN) = Inl ValueError \<and>
   validate_age example_env (PyFloat NaN) = Inr False \<and>
   py_int example_env (PyFloat (Finite 59 (- 1))) = Inr 29 \<and>
   validate_age example_env (PyFloat (Finite 59 (- 1))) = Inr True"
proof -
  have h: "\<forall>err. py_int example_env (PyFloat NaN) = Inl err \<longrightarrow> err = ValueError"
    by simp
  have h': "\<forall>err. py_int example_env (PyFloat (Finite 59 (- 1))) = Inl err \<longrightarrow> err = ValueError"
    by simp
  have v: "py_int example_env (PyFloat (Finite 59 (- 1))) = Inr 29"
    by (simp add: float_trunc_def)
  from validate_age_coercion [of example_env "PyFloat NaN"] h
    validate_age_coercion [of example_env "PyFloat (Finite 59 (- 1))"] h' v
  show ?thesis
    by simp
qed

text \<open>
  C2, as stated, fails: the integer coercion of the float infinity fails, and
  \<open>validate_age(float('inf'))\<close> raises \<open>OverflowError\<close> instead of returning false.
\<close>

theorem validate_age_infinity_raises:
  "py_int example_env (PyFloat Infinity) = Inl OverflowError \<and>
   validate_age example_env (PyFloat Infinity) = Inl OverflowError"
  by (simp add: validate_age_def)

text \<open>
  C8: for every string argument, each of \<open>validate_email\<close>, \<open>validate_age\<close> and
  \<open>validate_grade\<close> returns a boolean and raises nothing; \<open>validate_age\<close> turns the
  \<open>ValueError\<close> of the coercion into false. (The three functions are total: their
  recursions are structural.)
\<close>

theorem validators_total_on_strings:
  "(\<exists>b. validate_email (PyStr s) = Inr b) \<and>
   (\<exists>b. validate_age env (PyStr s) = Inr b) \<and>
   (\<exists>b. validate_grade env (PyStr s) = Inr b) \<and>
   (py_int env (PyStr s) = Inl ValueError \<longrightarrow> validate_age env (PyStr s) = Inr False)"
  by (cases "int_of_str env s") (auto simp: validate_email_def validate_age_def validate_grade_def)

theorem validators_total_on_strings_witness:
  "py_int example_env (PyStr (str ''abc'')) = Inl ValueError \<and>
   validate_age example_env (PyStr (str ''abc'')) = Inr False"
proof -
  have h: "py_int example_env (PyStr (str ''abc'')) = Inl ValueError"
    by (simp add: int_of_str_def int_space_def digit_value_def str_def)
  with validators_total_on_strings [of "str ''abc''" example_env] show ?thesis
    by simp
qed

text \<open>
  C9, as amended: with the case mappings of Unicode, \<open>validate_grade\<close> is invariant under
  upper-casing for every string \<open>g\<close>, \<open>validate_grade(g) = validate_grade(g.upper())\<close>, and
  under lower-casing for every string \<open>g\<close> that does not contain U+212A KELVIN SIGN,
  \<open>validate_grade(g) = validate_grade(g.lower())\<close>.
\<close>

theorem validate_grade_case_invariant:
  assumes "upper_idempotent env" and "lower_upper_agree env"
  shows "validate_grade env (PyStr g) = validate_grade env (PyStr (py_upper env g)) \<and>
         (8490 \<notin> set g \<longrightarrow>
            validate_grade env (PyStr g) = validate_grade env (PyStr (py_lower env g)))"
  using py_upper_idem[OF assms(1), of g] match_upper_lower[OF assms(2), of g]
  by (simp add: validate_grade_str)

theorem validate_grade_case_invariant_witness:
  "8490 \<notin> set [49, 305 :: nat] \<and>
   validate_grade example_env (PyStr [49, 305]) = Inr True \<and>
   validate_grade example_env (PyStr (py_upper example_env [49, 305])) = Inr True \<and>
   validate_grade example_env (PyStr (py_lower example_env [49, 305])) = Inr True"
proof -
  have e: "validate_grade example_env (PyStr [49, 305]) = Inr True"
    by (simp add: validate_grade_def py_upper_def upper_cp_def example_env_def ascii_upper_def
        grade_pattern_def max_reps_def in_class_def)
  have h: "8490 \<notin> set [49, 305 :: nat]"
    by simp
  from validate_grade_case_invariant
    [OF example_env_upper_idempotent example_env_lower_upper_agree, of "[49, 305]"] e h
  show ?thesis
    by auto
qed

text \<open>
  C9, as stated, fails at the string of the digit 1 and U+212A KELVIN SIGN: the sign is an
  uppercase letter outside \<open>[A-Z]\<close>, so the string is no grade, and its lower-cased form is
  \<open>"1k"\<close>, which is one.
\<close>

theorem validate_grade_kelvin_sign:
  "py_lower example_env [49, 8490] = str ''1k'' \<and>
   validate_grade example_env (PyStr [49, 8490]) = Inr False \<and>
   validate_grade example_env (PyStr (py_lower example_env [49, 8490])) = Inr True"
proof -
  have low: "py_lower example_env [49, 8490] = str ''1k''"
    by (simp add: py_lower_def lower_cp_def example_env_def ascii_lower_def str_def)
  have "validate_grade example_env (PyStr [49, 8490]) = Inr False"
    by (simp add: validate_grade_def py_upper_def upper_cp_def example_env_def ascii_upper_def
        grade_pattern_def max_reps_def in_class_def)
  moreover have "validate_grade example_env (PyStr (str ''1k'')) = Inr True"
    by (simp add: validate_grade_def py_upper_def upper_cp_def ascii_upper_def str_def
        grade_pattern_def max_reps_def in_class_def)
  ultimately show ?thesis
    unfolding low by simp
qed

section \<open>The forms: errors, records, updates\<close>

text \<open>
  C5: on a form submission (add or update) validation does not stop at the first failure:
  for every combination of the four field inputs the collected error list holds exactly
  one message per invalid field (so its length is the number of invalid fields), and
  when it is not empty both forms show all of it.
\<close>

theorem form_errors_one_per_invalid_field:
  "\<exists>errors. form_errors env n a e g = Inr errors \<and> distinct errors \<and>
     (name_required \<in> set errors \<longleftrightarrow> strip n = []) \<and>
     (age_out_of_range \<in> set errors \<longleftrightarrow> validate_age env (PyInt a) = Inr False) \<and>
     (email_required \<in> set errors \<longleftrightarrow> validate_email (PyStr e) = Inr False) \<and>
     (grade_format \<in> set errors \<longleftrightarrow> validate_grade env (PyStr g) = Inr False) \<and>
     set errors \<subseteq> {name_required, age_out_of_range, email_required, grade_format} \<and>
     length errors =
       (if strip n = [] then 1 else 0) +
       (if validate_age env (PyInt a) = Inr False then 1 else 0) +
       (if validate_email (PyStr e) = Inr False then 1 else 0) +
       (if validate_grade env (PyStr g) = Inr False then 1 else 0) \<and>
     (errors \<noteq> [] \<longrightarrow>
        show_add_student_form env generate_student_id m n a e g choice
          = Inr (Add_Errors errors, m) \<and>
        show_update_student_form env manager_update_student m selected_student n a e g choice
          = Inr (Update_Errors errors, m))"
proof -
  from messages_distinct have d:
    "name_required \<noteq> age_out_of_range" "name_required \<noteq> email_required"
    "name_required \<noteq> grade_format" "age_out_of_range \<noteq> email_required"
    "age_out_of_range \<noteq> grade_format" "email_required \<noteq> grade_format"
    by simp_all
  show ?thesis
    unfolding show_add_student_form_def show_update_student_form_def form_errors_eq
      validate_age_int validate_email_str validate_grade_str
    using d by (simp add: and_then_def)
qed

theorem form_errors_one_per_invalid_field_witness:
  "show_add_student_form example_env (\<lambda>m. str ''S1'') [] (str ''  '') 3 (str ''a@b.co'')
     (str ''10A'') Good = Inr (Add_Errors [name_required, age_out_of_range], [])"
proof -
  have e: "form_errors example_env (str ''  '') 3 (str ''a@b.co'') (str ''10A'')
             = Inr [name_required, age_out_of_range]"
    by (simp add: form_errors_eq strip_def is_space_def str_def py_upper_def upper_cp_def
        ascii_upper_def grade_pattern_def email_pattern_def max_reps_def in_class_def
        local_class_def domain_class_def letter_class_def)
  from form_errors_one_per_invalid_field
    [of example_env "str ''  ''" 3 "str ''a@b.co''" "str ''10A''" "\<lambda>m. str ''S1''" "[]" Good]
  show ?thesis
    unfolding e by auto
qed

text \<open>
  C6: every \<open>Student\<close> constructed through the add path is fully valid: its name is the
  trimmed, non-empty input; its age is an integer between 5 and 100; its grade is the
  upper-cased input and matches the grade pattern (one or two digits, the first not zero,
  and one uppercase letter, up to the newline that \<open>$\<close> lets end it); its email is the
  trimmed input and matches the email pattern (local part, \<open>@\<close>, domain, dot and at least two
  letters, with no newline left); its performance is one of the four options. A record is
  constructed only when the error list is empty, and it is the only record the add path
  inserts.
\<close>

theorem add_path_record_valid:
  "\<exists>r m'. show_add_student_form env generate_student_id m n a e g choice = Inr (r, m') \<and>
     (case r of
        Add_Errors errors \<Rightarrow> errors \<noteq> [] \<and> form_errors env n a e g = Inr errors \<and> m' = m
      | Added s \<Rightarrow> m' = m @ [s] \<and> form_errors env n a e g = Inr [] \<and>
          name s = strip n \<and> name s \<noteq> [] \<and> age s = a \<and> 5 \<le> age s \<and> age s \<le> 100 \<and>
          grade s = py_upper env g \<and> match_here grade_pattern 0 (grade s) \<and>
          grade_shape (without_final_newline (grade s)) \<and>
          email s = strip e \<and> match_here email_pattern 0 (email s) \<and>
          (\<exists>l d t. email s = l @ str ''@'' @ d @ str ''.'' @ t \<and>
             l \<noteq> [] \<and> list_all local_char l \<and> d \<noteq> [] \<and> list_all domain_char d \<and>
             2 \<le> length t \<and> list_all is_letter t) \<and>
          performance s \<in> set performance_options
      | Not_Added s \<Rightarrow> m' = m \<and> form_errors env n a e g = Inr [] \<and>
          name s = strip n \<and> name s \<noteq> [] \<and> age s = a \<and> 5 \<le> age s \<and> age s \<le> 100 \<and>
          grade s = py_upper env g \<and> match_here grade_pattern 0 (grade s) \<and>
          grade_shape (without_final_newline (grade s)) \<and>
          email s = strip e \<and> match_here email_pattern 0 (email s) \<and>
          (\<exists>l d t. email s = l @ str ''@'' @ d @ str ''.'' @ t \<and>
             l \<noteq> [] \<and> list_all local_char l \<and> d \<noteq> [] \<and> list_all domain_char d \<and>
             2 \<le> length t \<and> list_all is_letter t) \<and>
          performance s \<in> set performance_options)"
proof (cases "form_errors env n a e g = Inr []")
  case False
  then show ?thesis
    unfolding show_add_student_form_def form_errors_eq
    by (simp add: and_then_def)
next
  case True
  then have ok: "strip n \<noteq> []" "5 \<le> a" "a \<le> 100" "match_here email_pattern 0 e"
    "match_here grade_pattern 0 (py_upper env g)"
    unfolding form_errors_eq by (simp_all split: if_splits)
  have em: "match_here email_pattern 0 (strip e)"
    using ok(4) by (rule match_email_strip)
  have shape: "\<exists>l d t. strip e = l @ str ''@'' @ d @ str ''.'' @ t \<and>
           l \<noteq> [] \<and> list_all local_char l \<and> d \<noteq> [] \<and> list_all domain_char d \<and>
           2 \<le> length t \<and> list_all is_letter t"
    using ok(4) by (rule strip_email_shape)
  have gr: "grade_shape (without_final_newline (py_upper env g))"
    using ok(5) by (simp add: match_grade)
  define s where
    "s = \<lparr>student_id = generate_student_id m, name = strip n, age = a, grade = py_upper env g,
          email = strip e, performance = performance_label choice\<rparr>"
  have valid: "name s = strip n \<and> name s \<noteq> [] \<and> age s = a \<and> 5 \<le> age s \<and> age s \<le> 100 \<and>
          grade s = py_upper env g \<and> match_here grade_pattern 0 (grade s) \<and>
          grade_shape (without_final_newline (grade s)) \<and>
          email s = strip e \<and> match_here email_pattern 0 (email s) \<and>
          (\<exists>l d t. email s = l @ str ''@'' @ d @ str ''.'' @ t \<and>
             l \<noteq> [] \<and> list_all local_char l \<and> d \<noteq> [] \<and> list_all domain_char d \<and>
             2 \<le> length t \<and> list_all is_letter t) \<and>
          performance s \<in> set performance_options"
    using ok em shape gr performance_label_option[of choice] by (simp add: s_def)
  have run: "show_add_student_form env generate_student_id m n a e g choice
               = (if generate_student_id m \<in> set (map student_id m) then Inr (Not_Added s, m)
                  else Inr (Added s, m @ [s]))"
    unfolding show_add_student_form_def True
    by (simp add: and_then_def add_student_def Let_def s_def)
  show ?thesis
  proof (cases "generate_student_id m \<in> set (map student_id m)")
    case True
    with run have "show_add_student_form env generate_student_id m n a e g choice
                     = Inr (Not_Added s, m)"
      by simp
    with valid \<open>form_errors env n a e g = Inr []\<close> show ?thesis
      by (intro exI[of _ "Not_Added s"] exI[of _ m]) (unfold add_result.case, blast)
  next
    case False
    with run have "show_add_student_form env generate_student_id m n a e g choice
                     = Inr (Added s, m @ [s])"
      by simp
    with valid \<open>form_errors env n a e g = Inr []\<close> show ?thesis
      by (intro exI[of _ "Added s"] exI[of _ "m @ [s]"]) (unfold add_result.case, blast)
  qed
qed

theorem add_path_record_valid_witness:
  "show_add_student_form example_env (\<lambda>m. str ''S001'') [] (str '' Alice Smith '') 20
     (str ''alice@example.com'' @ [10]) (str ''5a'') Good = Inr (Added alice, [alice]) \<and>
   match_here grade_pattern 0 (grade alice) \<and>
   match_here email_pattern 0 (email alice) \<and>
   performance alice \<in> set performance_options"
proof -
  have e: "show_add_student_form example_env (\<lambda>m. str ''S001'') [] (str '' Alice Smith '') 20
     (str ''alice@example.com'' @ [10]) (str ''5a'') Good = Inr (Added alice, [alice])"
    by (simp add: show_add_student_form_def form_errors_eq and_then_def add_student_def alice_def
        Let_def strip_def is_space_def str_def py_upper_def upper_cp_def ascii_upper_def
        grade_pattern_def email_pattern_def max_reps_def in_class_def local_class_def
        domain_class_def letter_class_def)
  from add_path_record_valid [of example_env "\<lambda>m. str ''S001''" "[]" "str '' Alice Smith ''" 20
      "str ''alice@example.com'' @ [10]" "str ''5a''" Good]
  show ?thesis
    unfolding e by auto
qed

text \<open>
  C7: on a successful update submission the update path passes exactly the five editable
  fields (name, age, grade, email, performance) to \<open>update_student\<close> and never supplies
  \<open>student_id\<close>: whatever \<open>update_student\<close> is, the call that succeeded is the call with
  the identifier of the selected student and these five keyword arguments. So every
  \<open>update_student\<close> that leaves alone what it is not given leaves each record's
  \<open>student_id\<close> untouched.
\<close>

theorem update_passes_five_fields:
  assumes "show_update_student_form env manager_update_student m selected_student n a e g choice
             = Inr (Updated, m')"
  shows "\<exists>supplied.
           supplied = [(str ''name'', PyStr (strip n)), (str ''age'', PyInt a),
                       (str ''grade'', PyStr (py_upper env g)), (str ''email'', PyStr (strip e)),
                       (str ''performance'', PyStr (performance_label choice))] \<and>
           manager_update_student m (student_id selected_student) supplied = (True, m') \<and>
           map fst supplied
             = [str ''name'', str ''age'', str ''grade'', str ''email'', str ''performance''] \<and>
           str ''student_id'' \<notin> set (map fst supplied) \<and>
           (leaves_unsupplied_id manager_update_student \<longrightarrow>
              map student_id m' = map student_id m)"
proof -
  define supplied where
    "supplied = update_data (strip n) a (py_upper env g) (strip e) (performance_label choice)"
  obtain errors where fe: "form_errors env n a e g = Inr errors"
    unfolding form_errors_eq by blast
  have "errors = []"
  proof (rule ccontr)
    assume "errors \<noteq> []"
    then have "show_update_student_form env manager_update_student m selected_student n a e g
                 choice = Inr (Update_Errors errors, m)"
      by (simp add: show_update_student_form_def fe and_then_def)
    with assms show False by simp
  qed
  obtain b m2 where res: "manager_update_student m (student_id selected_student) supplied = (b, m2)"
    by (cases "manager_update_student m (student_id selected_student) supplied")
  have "show_update_student_form env manager_update_student m selected_student n a e g choice
          = Inr (if b then Updated else Not_Updated, m2)"
    using res \<open>errors = []\<close>
    by (simp add: show_update_student_form_def fe and_then_def supplied_def)
  with assms have "b" and "m2 = m'"
    by (simp_all split: if_splits)
  with res have up: "manager_update_student m (student_id selected_student) supplied = (True, m')"
    by simp
  have lit: "supplied = [(str ''name'', PyStr (strip n)), (str ''age'', PyInt a),
                       (str ''grade'', PyStr (py_upper env g)), (str ''email'', PyStr (strip e)),
                       (str ''performance'', PyStr (performance_label choice))]"
    by (simp add: supplied_def update_data_def)
  have keys: "map fst supplied
                = [str ''name'', str ''age'', str ''grade'', str ''email'', str ''performance'']"
    by (simp add: lit)
  have no_id: "str ''student_id'' \<notin> set (map fst supplied)"
    unfolding keys by (simp add: str_def)
  have ids: "leaves_unsupplied_id manager_update_student \<longrightarrow>
               map student_id m' = map student_id m"
    using up no_id unfolding leaves_unsupplied_id_def by blast
  from lit up keys no_id ids show ?thesis
    by (intro exI[of _ supplied] conjI)
qed

theorem update_passes_five_fields_witness:
  "show_update_student_form example_env update_student [alice, bob] alice (str ''Alice Jones '')
     21 (str ''alice@example.com'') (str ''6b'') Excellent
     = Inr (Updated, [alice\<lparr>name := str ''Alice Jones'', age := 21, grade := str ''6B'',
                              performance := str ''Excellent''\<rparr>, bob]) \<and>
   map student_id [alice\<lparr>name := str ''Alice Jones'', age := 21, grade := str ''6B'',
                           performance := str ''Excellent''\<rparr>, bob] = map student_id [alice, bob]"
proof -
  have c: "leaves_unsupplied_id update_student"
    unfolding leaves_unsupplied_id_def using update_student_ids by blast
  have e: "show_update_student_form example_env update_student [alice, bob] alice
     (str ''Alice Jones '') 21 (str ''alice@example.com'') (str ''6b'') Excellent
     = Inr (Updated, [alice\<lparr>name := str ''Alice Jones'', age := 21, grade := str ''6B'',
                              performance := str ''Excellent''\<rparr>, bob])"
    by (simp add: show_update_student_form_def form_errors_eq and_then_def update_student_def
        foldl_set_field_update_data alice_def bob_def
        strip_def is_space_def str_def py_upper_def upper_cp_def ascii_upper_def grade_pattern_def
        email_pattern_def max_reps_def in_class_def local_class_def domain_class_def
        letter_class_def)
  from update_passes_five_fields [OF e] c e show ?thesis
    by simp
qed

section \<open>Search and filter\<close>

text \<open>
  C1: when both a search query and filter criteria are supplied, the result should be the
  records matching both, the criteria being applied to the output of \<open>search_students\<close>.
  The code assigns the search result and then overwrites it with \<open>filter_students\<close> on the
  full collection: its result does not depend on the query. With the records of Alice and
  Bob, the query \<open>alice\<close> and no narrowing criterion, the page returns both records, and the
  filters applied to the search result return Alice's alone.
\<close>

theorem search_query_discarded:
  "show_search_filter_section env m q pf gf lo hi = show_search_filter_section env m [] pf gf lo hi \<and>
   show_search_filter_section env [alice, bob] (str ''alice'') (str ''All'') [] 5 100 = [alice, bob] \<and>
   search_students env [alice, bob] (str ''alice'') = [alice] \<and>
   apply_filters env None (Some 5) (Some 100) None
     (search_students env [alice, bob] (str ''alice'')) = [alice]"
proof -
  have indep: "show_search_filter_section env m q pf gf lo hi
                 = show_search_filter_section env m [] pf gf lo hi"
    by (simp add: show_search_filter_section_def Let_def)
  have page: "show_search_filter_section env [alice, bob] (str ''alice'') (str ''All'') [] 5 100
                = [alice, bob]"
    by (simp add: show_search_filter_section_def Let_def filter_students_def apply_filters_def
        get_all_students_def strip_def alice_def bob_def)
  have search: "search_students env [alice, bob] (str ''alice'') = [alice]"
    by (subst search_students_ascii)
      (simp_all add: alice_def bob_def str_def ascii_lower_def)
  have "apply_filters env None (Some 5) (Some 100) None [alice] = [alice]"
    by (simp add: apply_filters_def alice_def)
  with indep page search show ?thesis
    by simp
qed

end
